theory Spec2Isabelle
  imports Main "HOL-Library.Word" "HOL-Library.Sublist"
begin

section \<open>The NFS getattr cache (nfsgetattrcache.c)\<close>

text \<open>
  A shallow embedding of the kernel module's cache: the eligibility test
  \<open>should_cache_path\<close>, the expiry sweep \<open>cleanup_cache\<close> and the intercepting
  \<open>cached_getattr\<close>. The module's globals are a record that every operation takes and
  returns. What the module calls in the kernel and does not define itself (the clock
  \<open>jiffies\<close>, \<open>msecs_to_jiffies\<close>, \<open>d_path\<close>, \<open>kmalloc\<close> and the saved
  \<open>original_iops->getattr\<close>) is a record of parameters, one value per call, so that
  nothing is assumed about them beyond their types.
\<close>

subsection \<open>Constants and configuration\<close>

type_synonym ulong = "64 word"
  \<comment> \<open>\<open>unsigned long\<close> of a 64-bit kernel: subtraction wraps, comparison is unsigned\<close>

type_synonym atomic_t = "32 word"
  \<comment> \<open>the kernel's \<open>atomic_t\<close> counter: \<open>atomic_inc\<close> wraps\<close>

definition CACHE_TIMEOUT_MS :: "32 word" where
  "CACHE_TIMEOUT_MS = 1000"

definition CLEANUP_INTERVAL_MS :: "32 word" where
  "CLEANUP_INTERVAL_MS = 5000"

definition MAX_PATH_LEN :: nat where
  "MAX_PATH_LEN = 256"

definition cached_paths :: "string list" where
  "cached_paths = [''/tmp/nfs'']"

definition EINVAL :: int where
  "EINVAL = 22"

subsection \<open>Data\<close>

text \<open>
  A C string is the list of its bytes before the terminating NUL. \<open>struct kstat\<close> is
  opaque to the module (it is only copied), so it is a type variable \<open>'s\<close>; so are the
  dentry \<open>'d\<close> and the user namespace \<open>'u\<close>. A pointer that the code tests against
  NULL is an \<open>option\<close>.
\<close>

record 's getattr_cache_entry =
  path :: string
  stat :: 's
  timestamp :: ulong

text \<open>\<open>struct path\<close>: the module reads only its \<open>dentry\<close> pointer.\<close>

record 'd struct_path =
  dentry :: "'d option"

text \<open>
  The module's globals. \<open>cache_list\<close> is the linked list from its head; \<open>getattr_calls\<close>
  is a ghost counter, absent from the C, that counts the calls made through
  \<open>original_iops->getattr\<close>.
\<close>

record 's globals =
  cache_list :: "'s getattr_cache_entry list"
  cache_hits :: atomic_t
  cache_misses :: atomic_t
  getattr_calls :: nat

text \<open>
  What one call finds in the kernel: the value read from \<open>jiffies\<close>, the conversion
  \<open>msecs_to_jiffies\<close> (it depends on the kernel's HZ), \<open>d_path\<close> (an error code or the
  path string), the saved \<open>original_iops->getattr\<close> (from the arguments, with the
  content of the \<open>stat\<close> buffer, to the return code and the buffer's new content) and
  whether \<open>kmalloc\<close> returns memory.
\<close>

record ('u, 'd, 's) kernel =
  jiffies :: ulong
  msecs_to_jiffies :: "32 word \<Rightarrow> ulong"
  d_path :: "'d struct_path \<Rightarrow> nat \<Rightarrow> int + string"
  original_getattr :: "'u \<Rightarrow> 'd struct_path \<Rightarrow> 's \<Rightarrow> 32 word \<Rightarrow> 32 word \<Rightarrow> int \<times> 's"
  kmalloc :: bool

subsection \<open>String functions of the C library\<close>

text \<open>
  \<open>strncmp\<close> compares at most \<open>n\<close> bytes and stops at the end of either string;
  \<open>strcmp\<close> is the same without the bound. Both return 0 when no difference was found,
  and -1 or 1 by the unsigned order of the first bytes that differ (the end of a string
  is the byte 0, below every other).
\<close>

fun strncmp :: "string \<Rightarrow> string \<Rightarrow> nat \<Rightarrow> int" where
  "strncmp cs ct 0 = 0"
| "strncmp [] [] (Suc n) = 0"
| "strncmp [] (c2 # ct) (Suc n) = - 1"
| "strncmp (c1 # cs) [] (Suc n) = 1"
| "strncmp (c1 # cs) (c2 # ct) (Suc n) =
     (if c1 \<noteq> c2 then (if (of_char c1 :: nat) < of_char c2 then - 1 else 1)
      else strncmp cs ct n)"

fun strcmp :: "string \<Rightarrow> string \<Rightarrow> int" where
  "strcmp [] [] = 0"
| "strcmp [] (c2 # ct) = - 1"
| "strcmp (c1 # cs) [] = 1"
| "strcmp (c1 # cs) (c2 # ct) =
     (if c1 \<noteq> c2 then (if (of_char c1 :: nat) < of_char c2 then - 1 else 1)
      else strcmp cs ct)"

definition strlen :: "string \<Rightarrow> nat" where
  "strlen s = length s"

subsection \<open>should_cache_path\<close>

text \<open>The loop over \<open>cached_paths[i]\<close>, from the entries still to be tried.\<close>

fun should_cache_loop :: "string list \<Rightarrow> string \<Rightarrow> bool" where
  "should_cache_loop [] p = False"
| "should_cache_loop (c # rest) p =
     (if strncmp p c (strlen c) = 0 then True else should_cache_loop rest p)"

definition should_cache_path :: "string \<Rightarrow> bool" where
  "should_cache_path p = should_cache_loop cached_paths p"

subsection \<open>get_full_path\<close>

text \<open>\<open>IS_ERR(ret)\<close> gives NULL, anything else is returned as it is.\<close>

definition get_full_path :: "('u, 'd, 's) kernel \<Rightarrow> 'd struct_path \<Rightarrow> nat \<Rightarrow> string option" where
  "get_full_path k p buflen =
     (case d_path k p buflen of Inl err \<Rightarrow> None | Inr ret \<Rightarrow> Some ret)"

subsection \<open>cleanup_cache\<close>

text \<open>
  \<open>list_for_each_entry_safe\<close>: an entry whose age has reached the timeout is unlinked
  and freed, any other stays where it is.
\<close>

fun cleanup_loop :: "ulong \<Rightarrow> ulong \<Rightarrow> 's getattr_cache_entry list \<Rightarrow> 's getattr_cache_entry list" where
  "cleanup_loop now ttl [] = []"
| "cleanup_loop now ttl (entry # tmp) =
     (if now - timestamp entry \<ge> ttl then cleanup_loop now ttl tmp
      else entry # cleanup_loop now ttl tmp)"

definition cleanup_cache :: "('u, 'd, 's) kernel \<Rightarrow> 's globals \<Rightarrow> 's globals" where
  "cleanup_cache k g =
     (let now = jiffies k
      in g\<lparr>cache_list := cleanup_loop now (msecs_to_jiffies k CACHE_TIMEOUT_MS) (cache_list g)\<rparr>)"

subsection \<open>cached_getattr\<close>

text \<open>
  The scan of lines 117 to 125: the first entry with an equal path and an age below the
  timeout, if there is one.
\<close>

fun cache_scan :: "string \<Rightarrow> ulong \<Rightarrow> ulong \<Rightarrow> 's getattr_cache_entry list \<Rightarrow> 's getattr_cache_entry option" where
  "cache_scan fullpath now ttl [] = None"
| "cache_scan fullpath now ttl (entry # rest) =
     (if strcmp (path entry) fullpath = 0 \<and> now - timestamp entry < ttl then Some entry
      else cache_scan fullpath now ttl rest)"

text \<open>A call of \<open>original_iops->getattr\<close>, counted in the ghost counter.\<close>

definition call_original ::
  "('u, 'd, 's) kernel \<Rightarrow> 'u \<Rightarrow> 'd struct_path \<Rightarrow> 's \<Rightarrow> 32 word \<Rightarrow> 32 word \<Rightarrow> 's globals
    \<Rightarrow> int \<times> 's \<times> 's globals" where
  "call_original k user_ns p st request_mask query_flags g =
     (case original_getattr k user_ns p st request_mask query_flags of
        (ret, st') \<Rightarrow> (ret, st', g\<lparr>getattr_calls := Suc (getattr_calls g)\<rparr>))"

text \<open>
  The result is the return code, the content of the \<open>stat\<close> buffer after the call
  (\<open>None\<close> when the pointer is NULL) and the globals after the call.
  \<open>strncpy\<close> with the bound \<open>MAX_PATH_LEN - 1\<close> and the terminator written at the last
  index keep the first \<open>MAX_PATH_LEN - 1\<close> bytes of the path.
\<close>

definition cached_getattr ::
  "('u, 'd, 's) kernel \<Rightarrow> 'u \<Rightarrow> 'd struct_path option \<Rightarrow> 's option \<Rightarrow> 32 word \<Rightarrow> 32 word
    \<Rightarrow> 's globals \<Rightarrow> int \<times> 's option \<times> 's globals" where
  "cached_getattr k user_ns pathp statp request_mask query_flags g =
     (let now = jiffies k in
      case pathp of
        None \<Rightarrow> (- EINVAL, statp, g)
      | Some p \<Rightarrow>
      (case dentry p of
        None \<Rightarrow> (- EINVAL, statp, g)
      | Some d \<Rightarrow>
      (case statp of
        None \<Rightarrow> (- EINVAL, statp, g)
      | Some st \<Rightarrow>
      (case get_full_path k p MAX_PATH_LEN of
        None \<Rightarrow>
          (case call_original k user_ns p st request_mask query_flags g of
             (ret, st', g') \<Rightarrow> (ret, Some st', g'))
      | Some fullpath \<Rightarrow>
          if \<not> should_cache_path fullpath then
            (case call_original k user_ns p st request_mask query_flags g of
               (ret, st', g') \<Rightarrow> (ret, Some st', g'))
          else
            (case cache_scan fullpath now (msecs_to_jiffies k CACHE_TIMEOUT_MS) (cache_list g) of
               Some entry \<Rightarrow> (0, Some (stat entry), g\<lparr>cache_hits := cache_hits g + 1\<rparr>)
             | None \<Rightarrow>
                (case call_original k user_ns p st request_mask query_flags
                        (g\<lparr>cache_misses := cache_misses g + 1\<rparr>) of
                   (ret, st', g') \<Rightarrow>
                     if ret \<noteq> 0 then (ret, Some st', g')
                     else if \<not> kmalloc k then (ret, Some st', g')
                     else (ret, Some st',
                           g'\<lparr>cache_list :=
                                \<lparr>path = take (MAX_PATH_LEN - 1) fullpath, stat = st',
                                 timestamp = now\<rparr> # cache_list g'\<rparr>)))))))"

subsection \<open>Sequential histories\<close>

text \<open>
  The module has two entry points after it is loaded: \<open>cached_getattr\<close>, called by
  the VFS, and \<open>cleanup_cache\<close>, called by the cleanup worker. A history is a list of
  such calls, run one after the other on the globals.
\<close>

datatype ('u, 'd, 's) event =
    Getattr "('u, 'd, 's) kernel" 'u "'d struct_path option" "'s option" "32 word" "32 word"
  | Cleanup "('u, 'd, 's) kernel"

fun step :: "('u, 'd, 's) event \<Rightarrow> 's globals \<Rightarrow> 's globals" where
  "step (Getattr k user_ns pathp statp request_mask query_flags) g =
     snd (snd (cached_getattr k user_ns pathp statp request_mask query_flags g))"
| "step (Cleanup k) g = cleanup_cache k g"

definition run :: "('u, 'd, 's) event list \<Rightarrow> 's globals \<Rightarrow> 's globals" where
  "run evs g = fold step evs g"

text \<open>
  An event lies in the window of an entry created at \<open>T\<close> when its clock reading is less
  than \<open>ttl\<close> after \<open>T\<close>, its kernel converts the timeout to \<open>ttl\<close>, and the string
  that \<open>d_path\<close> returns fits the buffer of \<open>MAX_PATH_LEN\<close> bytes it was given (with
  its terminator).
\<close>

fun in_window :: "ulong \<Rightarrow> ulong \<Rightarrow> ('u, 'd, 's) event \<Rightarrow> bool" where
  "in_window T ttl (Getattr k user_ns pathp statp request_mask query_flags) =
     (jiffies k - T < ttl \<and> msecs_to_jiffies k CACHE_TIMEOUT_MS = ttl \<and>
      (case pathp of
         None \<Rightarrow> True
       | Some p \<Rightarrow>
          (case get_full_path k p MAX_PATH_LEN of
             None \<Rightarrow> True
           | Some s \<Rightarrow> length s < MAX_PATH_LEN)))"
| "in_window T ttl (Cleanup k) =
     (jiffies k - T < ttl \<and> msecs_to_jiffies k CACHE_TIMEOUT_MS = ttl)"

subsection \<open>A concrete kernel for the examples\<close>

text \<open>
  HZ is 1000, so a millisecond is a jiffy. The dentry 1 is \<open>/tmp/nfs/a\<close>, the dentry 2
  is \<open>/tmp/nfsother\<close>, the dentry 3 is \<open>/etc/passwd\<close>, and \<open>d_path\<close> fails on any
  other with \<open>-ENAMETOOLONG\<close>. The kernel \<open>ex_kernel t r m\<close> reads the clock as
  \<open>t\<close>, its original getattr answers \<open>r\<close>, and its \<open>kmalloc\<close> succeeds when \<open>m\<close>.
\<close>

definition ex_msecs_to_jiffies :: "32 word \<Rightarrow> ulong" where
  "ex_msecs_to_jiffies m = ucast m"

definition ex_d_path :: "nat struct_path \<Rightarrow> nat \<Rightarrow> int + string" where
  "ex_d_path p buflen =
     (if dentry p = Some 1 then Inr ''/tmp/nfs/a''
      else if dentry p = Some 2 then Inr ''/tmp/nfsother''
      else if dentry p = Some 3 then Inr ''/etc/passwd''
      else Inl (- 36))"

definition ex_kernel :: "ulong \<Rightarrow> int \<times> nat \<Rightarrow> bool \<Rightarrow> (unit, nat, nat) kernel" where
  "ex_kernel t r m =
     \<lparr>jiffies = t, msecs_to_jiffies = ex_msecs_to_jiffies, d_path = ex_d_path,
      original_getattr = (\<lambda>user_ns p st request_mask query_flags. r), kmalloc = m\<rparr>"

definition ex_dentry :: "nat \<Rightarrow> nat struct_path" where
  "ex_dentry d = \<lparr>dentry = Some d\<rparr>"

definition ex_entry :: "string \<Rightarrow> nat \<Rightarrow> ulong \<Rightarrow> nat getattr_cache_entry" where
  "ex_entry p st t = \<lparr>path = p, stat = st, timestamp = t\<rparr>"

definition ex_globals :: "nat getattr_cache_entry list \<Rightarrow> nat globals" where
  "ex_globals es = \<lparr>cache_list = es, cache_hits = 0, cache_misses = 0, getattr_calls = 0\<rparr>"

section \<open>Properties\<close>

subsection \<open>Strings\<close>

lemma strncmp_zero_iff: "strncmp s c n = 0 \<longleftrightarrow> take n s = take n c"
  by (induction s c n rule: strncmp.induct) auto

lemma strncmp_strlen_prefix: "strncmp s c (strlen c) = 0 \<longleftrightarrow> prefix c s"
proof
  assume "strncmp s c (strlen c) = 0"
  then have "take (length c) s = c"
    by (simp add: strncmp_zero_iff strlen_def)
  then have "s = c @ drop (length c) s"
    by (metis append_take_drop_id)
  then show "prefix c s"
    by (rule prefixI)
next
  assume "prefix c s"
  then show "strncmp s c (strlen c) = 0"
    by (auto simp: strncmp_zero_iff strlen_def prefix_def)
qed

lemma strcmp_zero_iff: "strcmp s c = 0 \<longleftrightarrow> s = c"
  by (induction s c rule: strcmp.induct) auto

lemma should_cache_loop_iff: "should_cache_loop cs p \<longleftrightarrow> (\<exists>c\<in>set cs. prefix c p)"
  by (induction cs) (auto simp: strncmp_strlen_prefix)

subsection \<open>The sweep\<close>

lemma cleanup_loop_filter:
  "cleanup_loop now ttl es = filter (\<lambda>e. now - timestamp e < ttl) es"
  by (induction es) (auto simp: not_le)

subsection \<open>The scan\<close>

lemma cache_scan_find:
  "cache_scan fullpath now ttl es =
     find (\<lambda>e. path e = fullpath \<and> now - timestamp e < ttl) es"
  by (induction es) (simp_all add: strcmp_zero_iff)

lemma cached_getattr_suffix:
  "suffix (cache_list g) (cache_list (snd (snd (cached_getattr k u pathp statp rm qf g))))"
  unfolding cached_getattr_def call_original_def Let_def
  by (auto simp: suffix_ConsI split: option.split prod.split)

subsection \<open>The branches of cached_getattr\<close>

lemma cached_getattr_delegate:
  assumes "dentry p = Some d"
    and "case d_path k p MAX_PATH_LEN of Inl err \<Rightarrow> True | Inr fullpath \<Rightarrow> \<not> should_cache_path fullpath"
  shows "cached_getattr k user_ns (Some p) (Some st) request_mask query_flags g =
    (fst (original_getattr k user_ns p st request_mask query_flags),
     Some (snd (original_getattr k user_ns p st request_mask query_flags)),
     g\<lparr>getattr_calls := Suc (getattr_calls g)\<rparr>)"
  using assms
  by (simp add: cached_getattr_def get_full_path_def call_original_def
      split: sum.splits prod.splits)

lemma cached_getattr_miss:
  assumes "dentry p = Some d"
    and "d_path k p MAX_PATH_LEN = Inr fullpath"
    and "should_cache_path fullpath"
    and "cache_scan fullpath (jiffies k) (msecs_to_jiffies k CACHE_TIMEOUT_MS) (cache_list g) = None"
    and "original_getattr k user_ns p st request_mask query_flags = (ret, st')"
  shows "cached_getattr k user_ns (Some p) (Some st) request_mask query_flags g =
    (ret, Some st',
     if ret = 0 \<and> kmalloc k
     then g\<lparr>cache_misses := cache_misses g + 1, getattr_calls := Suc (getattr_calls g),
            cache_list := \<lparr>path = take (MAX_PATH_LEN - 1) fullpath, stat = st',
                            timestamp = jiffies k\<rparr> # cache_list g\<rparr>
     else g\<lparr>cache_misses := cache_misses g + 1, getattr_calls := Suc (getattr_calls g)\<rparr>)"
  using assms
  by (simp add: cached_getattr_def get_full_path_def call_original_def)

lemma cached_getattr_hit:
  assumes "dentry p = Some d"
    and "d_path k p MAX_PATH_LEN = Inr fullpath"
    and "should_cache_path fullpath"
    and "cache_scan fullpath (jiffies k) (msecs_to_jiffies k CACHE_TIMEOUT_MS) (cache_list g) = Some entry"
  shows "cached_getattr k user_ns (Some p) (Some st) request_mask query_flags g =
    (0, Some (stat entry), g\<lparr>cache_hits := cache_hits g + 1\<rparr>)"
  using assms
  by (simp add: cached_getattr_def get_full_path_def)

text \<open>
  A call that changes the store went through the insertion at the end of
  \<open>cached_getattr\<close>: every other branch leaves the list as it was.
\<close>

lemma cached_getattr_grows:
  assumes "cached_getattr k u pathp statp rm qf g = (ret, so, g')"
    and "cache_list g' \<noteq> cache_list g"
  obtains p d st fullpath st' where
    "pathp = Some p" "dentry p = Some d" "statp = Some st"
    "d_path k p MAX_PATH_LEN = Inr fullpath" "should_cache_path fullpath"
    "cache_scan fullpath (jiffies k) (msecs_to_jiffies k CACHE_TIMEOUT_MS) (cache_list g) = None"
    "original_getattr k u p st rm qf = (0, st')" "kmalloc k"
proof -
  from assms obtain p where p: "pathp = Some p"
    by (cases pathp) (auto simp: cached_getattr_def Let_def)
  from assms p obtain d where d: "dentry p = Some d"
    by (cases "dentry p") (auto simp: cached_getattr_def Let_def)
  from assms p d obtain st where st: "statp = Some st"
    by (cases statp) (auto simp: cached_getattr_def Let_def)
  obtain r st' where orig: "original_getattr k u p st rm qf = (r, st')"
    by (cases "original_getattr k u p st rm qf")
  have deleg: "cached_getattr k u (Some p) (Some st) rm qf g =
      (r, Some st', g\<lparr>getattr_calls := Suc (getattr_calls g)\<rparr>)"
    if "case d_path k p MAX_PATH_LEN of Inl err \<Rightarrow> True | Inr fullpath \<Rightarrow> \<not> should_cache_path fullpath"
    using cached_getattr_delegate [OF d that, of u st rm qf g] orig by simp
  obtain fullpath where
    fp: "d_path k p MAX_PATH_LEN = Inr fullpath" "should_cache_path fullpath"
  proof (cases "d_path k p MAX_PATH_LEN")
    case (Inl err)
    with deleg assms p st have False
      by auto
    then show ?thesis ..
  next
    case (Inr fullpath)
    show ?thesis
    proof (cases "should_cache_path fullpath")
      case True
      with Inr show ?thesis
        by (rule that)
    next
      case False
      with Inr deleg assms p st have False
        by auto
      then show ?thesis ..
    qed
  qed
  have scan: "cache_scan fullpath (jiffies k) (msecs_to_jiffies k CACHE_TIMEOUT_MS) (cache_list g) = None"
  proof (cases "cache_scan fullpath (jiffies k) (msecs_to_jiffies k CACHE_TIMEOUT_MS) (cache_list g)")
    case (Some entry)
    from cached_getattr_hit [OF d fp Some, of u st rm qf] assms p st show ?thesis
      by auto
  qed simp
  from cached_getattr_miss [OF d fp scan orig] assms p st
  have "r = 0" "kmalloc k"
    by (auto split: if_splits)
  with p d st fp scan orig show thesis
    by (auto intro: that)
qed

subsection \<open>The first entry for a path\<close>

text \<open>
  While the first entry of the store with a given path is fresh, the scan for that path
  stops at it, a sweep keeps it, and no call inserts another entry for the path in front
  of it. So it stays the first entry for its path along a history inside its window.
\<close>

lemma cache_scan_first_for_path:
  assumes "find (\<lambda>e. path e = fullpath) es = Some e0"
    and "now - timestamp e0 < ttl"
  shows "cache_scan fullpath now ttl es = Some e0"
  using assms
  by (induction es) (auto simp: strcmp_zero_iff split: if_splits)

lemma cleanup_loop_first_for_path:
  assumes "find (\<lambda>e. path e = fullpath) es = Some e0"
    and "now - timestamp e0 < ttl"
  shows "find (\<lambda>e. path e = fullpath) (cleanup_loop now ttl es) = Some e0"
  using assms
  by (induction es) (auto simp: not_le split: if_splits)

lemma step_first_for_path:
  assumes first: "find (\<lambda>e. path e = fullpath) (cache_list g) = Some e0"
    and win: "in_window (timestamp e0) ttl ev"
  shows "find (\<lambda>e. path e = fullpath) (cache_list (step ev g)) = Some e0"
proof (cases ev)
  case (Cleanup k)
  with first win show ?thesis
    by (simp add: cleanup_cache_def cleanup_loop_first_for_path)
next
  case (Getattr k u pathp statp rm qf)
  obtain ret so g' where res: "cached_getattr k u pathp statp rm qf g = (ret, so, g')"
    by (cases "cached_getattr k u pathp statp rm qf g")
  show ?thesis
  proof (cases "cache_list g' = cache_list g")
    case True
    with first Getattr res show ?thesis
      by simp
  next
    case False
    from res False obtain p d st q st' where
      call: "pathp = Some p" "dentry p = Some d" "statp = Some st"
        "d_path k p MAX_PATH_LEN = Inr q" "should_cache_path q"
        "cache_scan q (jiffies k) (msecs_to_jiffies k CACHE_TIMEOUT_MS) (cache_list g) = None"
        "original_getattr k u p st rm qf = (0, st')" "kmalloc k"
      by (rule cached_getattr_grows)
    from win Getattr call have fits: "length q < MAX_PATH_LEN"
      and fresh: "jiffies k - timestamp e0 < msecs_to_jiffies k CACHE_TIMEOUT_MS"
      by (simp_all add: get_full_path_def)
    have "q \<noteq> fullpath"
      using cache_scan_first_for_path [OF first fresh] call(6) by auto
    moreover have "take (MAX_PATH_LEN - 1) q = q"
      using fits by simp
    moreover have "cache_list g' =
        \<lparr>path = take (MAX_PATH_LEN - 1) q, stat = st', timestamp = jiffies k\<rparr> # cache_list g"
      using cached_getattr_miss [OF call(2,4,5,6,7)] res call(1,3,8) by auto
    ultimately show ?thesis
      using first Getattr res by simp
  qed
qed

lemma run_first_for_path:
  assumes "find (\<lambda>e. path e = fullpath) (cache_list g) = Some e0"
    and "\<forall>ev\<in>set evs. in_window (timestamp e0) ttl ev"
  shows "find (\<lambda>e. path e = fullpath) (cache_list (run evs g)) = Some e0"
  using assms unfolding run_def
proof (induction evs arbitrary: g)
  case Nil
  then show ?case
    by simp
next
  case (Cons ev evs)
  from Cons.prems have "find (\<lambda>e. path e = fullpath) (cache_list (step ev g)) = Some e0"
    by (auto intro: step_first_for_path)
  with Cons.prems have "find (\<lambda>e. path e = fullpath) (cache_list (fold step evs (step ev g))) = Some e0"
    by (intro Cons.IH) simp_all
  then show ?case
    by simp
qed

lemma cached_getattr_inserted:
  assumes res: "cached_getattr k u (Some p) statp rm qf g = (ret, so, g')"
    and grows: "cache_list g' \<noteq> cache_list g"
    and resolved: "d_path k p MAX_PATH_LEN = Inr fullpath"
  shows "should_cache_path fullpath" and "ret = 0"
    and "\<exists>st'. so = Some st' \<and> cache_list g' =
      \<lparr>path = take (MAX_PATH_LEN - 1) fullpath, stat = st', timestamp = jiffies k\<rparr> # cache_list g"
proof -
  from res grows obtain p' d st q st' where
    call: "Some p = Some p'" "dentry p' = Some d" "statp = Some st"
      "d_path k p' MAX_PATH_LEN = Inr q" "should_cache_path q"
      "cache_scan q (jiffies k) (msecs_to_jiffies k CACHE_TIMEOUT_MS) (cache_list g) = None"
      "original_getattr k u p' st rm qf = (0, st')" "kmalloc k"
    by (rule cached_getattr_grows)
  from call(1) have p': "p' = p"
    by simp
  from call(4) resolved have q: "q = fullpath"
    unfolding p' by simp
  note miss = cached_getattr_miss [OF call(2,4,5,6,7), unfolded p' q]
  have "(ret, so, g') =
      (0, Some st',
       g\<lparr>cache_misses := cache_misses g + 1, getattr_calls := Suc (getattr_calls g),
          cache_list := \<lparr>path = take (MAX_PATH_LEN - 1) fullpath, stat = st',
                          timestamp = jiffies k\<rparr> # cache_list g\<rparr>)"
    unfolding res [symmetric] call(3) miss using call(8) by simp
  then show "ret = 0"
    and "\<exists>st'. so = Some st' \<and> cache_list g' =
      \<lparr>path = take (MAX_PATH_LEN - 1) fullpath, stat = st', timestamp = jiffies k\<rparr> # cache_list g"
    by simp_all
  from call(5) show "should_cache_path fullpath"
    unfolding q .
qed

subsection \<open>Evaluating the examples\<close>

lemmas ex_defs =
  ex_msecs_to_jiffies_def ex_d_path_def ex_kernel_def ex_dentry_def ex_entry_def
  ex_globals_def get_full_path_def call_original_def should_cache_path_def
  cached_paths_def strlen_def MAX_PATH_LEN_def CACHE_TIMEOUT_MS_def EINVAL_def

lemma ex_first_fetch:
  "cached_getattr (ex_kernel 0 (0, 42) True) () (Some (ex_dentry 1)) (Some 0) 0 0 (ex_globals [])
   = (0, Some 42, \<lparr>cache_list = [ex_entry ''/tmp/nfs/a'' 42 0], cache_hits = 0,
        cache_misses = 1, getattr_calls = 1\<rparr>)"
  by (simp add: cached_getattr_def ex_defs)

lemma ex_second_fetch:
  "cached_getattr (ex_kernel 1000 (0, 43) True) () (Some (ex_dentry 1)) (Some 0) 0 0
     \<lparr>cache_list = [ex_entry ''/tmp/nfs/a'' 42 0], cache_hits = 0,
        cache_misses = 1, getattr_calls = 1\<rparr>
   = (0, Some 43, \<lparr>cache_list = [ex_entry ''/tmp/nfs/a'' 43 1000, ex_entry ''/tmp/nfs/a'' 42 0],
        cache_hits = 0, cache_misses = 2, getattr_calls = 2\<rparr>)"
  by (simp add: cached_getattr_def ex_defs)

lemma ex_history:
  "run [Getattr (ex_kernel 100 (0, 50) True) () (Some (ex_dentry 2)) (Some 0) 0 0,
        Cleanup (ex_kernel 400 (0, 0) True),
        Getattr (ex_kernel 450 (0, 51) True) () (Some (ex_dentry 1)) (Some 0) 0 0]
     \<lparr>cache_list = [ex_entry ''/tmp/nfs/a'' 42 0], cache_hits = 0,
        cache_misses = 1, getattr_calls = 1\<rparr>
   = \<lparr>cache_list = [ex_entry ''/tmp/nfsother'' 50 100, ex_entry ''/tmp/nfs/a'' 42 0],
        cache_hits = 1, cache_misses = 2, getattr_calls = 2\<rparr>"
  by (simp add: run_def cached_getattr_def cleanup_cache_def ex_defs)

section \<open>The claims\<close>

text \<open>
  C4. A path is eligible exactly when one of the configured prefixes is a prefix of it as
  a list of bytes, with no regard for path segments: with the configured prefix
  \<open>/tmp/nfs\<close>, both \<open>/tmp/nfs/a\<close> and \<open>/tmp/nfsother\<close> are eligible.
\<close>

theorem should_cache_path_byte_prefix:
  "(should_cache_path p \<longleftrightarrow> (\<exists>c\<in>set cached_paths. prefix c p))
   \<and> should_cache_path ''/tmp/nfs/a''
   \<and> should_cache_path ''/tmp/nfsother''"
  by (simp add: should_cache_path_def should_cache_loop_iff cached_paths_def)

theorem should_cache_path_byte_prefix_witness:
  "should_cache_path ''/tmp/nfs/deep/file'' \<and> \<not> should_cache_path ''/tmp/nf''
   \<and> \<not> should_cache_path ''/home/tmp/nfs''"
proof -
  have c: "set cached_paths = {''/tmp/nfs''}"
    by (simp add: cached_paths_def)
  show ?thesis
    using should_cache_path_byte_prefix [of "''/tmp/nfs/deep/file''"]
      should_cache_path_byte_prefix [of "''/tmp/nf''"]
      should_cache_path_byte_prefix [of "''/home/tmp/nfs''"]
    unfolding c by simp
qed

text \<open>
  C3. A sweep at the time \<open>jiffies k\<close> keeps, in their order, exactly the entries whose
  age is below the timeout and removes every other; the size of the store afterwards is
  the number of fresh entries before; the counters are not touched.
\<close>

theorem cleanup_cache_removes_exactly_expired:
  "cache_list (cleanup_cache k g) =
     filter (\<lambda>e. jiffies k - timestamp e < msecs_to_jiffies k CACHE_TIMEOUT_MS) (cache_list g)
   \<and> set (cache_list (cleanup_cache k g)) =
     {e \<in> set (cache_list g). \<not> jiffies k - timestamp e \<ge> msecs_to_jiffies k CACHE_TIMEOUT_MS}
   \<and> length (cache_list (cleanup_cache k g)) =
     length (filter (\<lambda>e. jiffies k - timestamp e < msecs_to_jiffies k CACHE_TIMEOUT_MS)
       (cache_list g))
   \<and> cache_hits (cleanup_cache k g) = cache_hits g
   \<and> cache_misses (cleanup_cache k g) = cache_misses g
   \<and> getattr_calls (cleanup_cache k g) = getattr_calls g"
  by (auto simp: cleanup_cache_def cleanup_loop_filter)

theorem cleanup_cache_removes_exactly_expired_witness:
  "cache_list (cleanup_cache (ex_kernel 1500 (0, 0) True)
     (ex_globals [ex_entry ''/tmp/nfs/a'' 1 1000, ex_entry ''/tmp/nfs/a'' 2 500,
                  ex_entry ''/tmp/nfs/b'' 3 501, ex_entry ''/tmp/nfs/c'' 4 2000]))
   = [ex_entry ''/tmp/nfs/a'' 1 1000, ex_entry ''/tmp/nfs/b'' 3 501]"
  using cleanup_cache_removes_exactly_expired
    [of "ex_kernel 1500 (0, 0) True"
        "ex_globals [ex_entry ''/tmp/nfs/a'' 1 1000, ex_entry ''/tmp/nfs/a'' 2 500,
                     ex_entry ''/tmp/nfs/b'' 3 501, ex_entry ''/tmp/nfs/c'' 4 2000]"]
  by (simp add: ex_defs)

text \<open>
  C2. The scan returns the first entry, in the order of the store, whose path is equal
  to the one looked up and whose age is below the timeout; an entry with an equal path
  and an age at or above the timeout is passed over and the scan goes on with the entries
  behind it; on an eligible path \<open>cached_getattr\<close> returns the attributes of the entry
  the scan found and leaves the store as it is; and no call of \<open>cached_getattr\<close>
  removes an entry: the store before the call is a suffix of the store after it.
\<close>

theorem cache_scan_first_fresh_match:
  "cache_scan fullpath now ttl es =
     find (\<lambda>e. path e = fullpath \<and> now - timestamp e < ttl) es
   \<and> (path e = fullpath \<and> ttl \<le> now - timestamp e \<longrightarrow>
        cache_scan fullpath now ttl (e # es) = cache_scan fullpath now ttl es)
   \<and> (dentry p = Some d \<and> d_path k p MAX_PATH_LEN = Inr fullpath
        \<and> should_cache_path fullpath
        \<and> find (\<lambda>e. path e = fullpath
                    \<and> jiffies k - timestamp e < msecs_to_jiffies k CACHE_TIMEOUT_MS)
              (cache_list g) = Some found \<longrightarrow>
        cached_getattr k u (Some p) (Some st) rm qf g =
          (0, Some (stat found), g\<lparr>cache_hits := cache_hits g + 1\<rparr>))
   \<and> suffix (cache_list g)
        (cache_list (snd (snd (cached_getattr k' u' pathp statp rm' qf' g))))"
proof (intro conjI impI)
  show "cache_scan fullpath now ttl es =
      find (\<lambda>e. path e = fullpath \<and> now - timestamp e < ttl) es"
    by (rule cache_scan_find)
next
  assume "path e = fullpath \<and> ttl \<le> now - timestamp e"
  then show "cache_scan fullpath now ttl (e # es) = cache_scan fullpath now ttl es"
    by (auto simp: strcmp_zero_iff)
next
  assume hit: "dentry p = Some d \<and> d_path k p MAX_PATH_LEN = Inr fullpath
      \<and> should_cache_path fullpath
      \<and> find (\<lambda>e. path e = fullpath
                  \<and> jiffies k - timestamp e < msecs_to_jiffies k CACHE_TIMEOUT_MS)
            (cache_list g) = Some found"
  then have "cache_scan fullpath (jiffies k) (msecs_to_jiffies k CACHE_TIMEOUT_MS) (cache_list g)
      = Some found"
    by (simp add: cache_scan_find)
  with hit show "cached_getattr k u (Some p) (Some st) rm qf g =
      (0, Some (stat found), g\<lparr>cache_hits := cache_hits g + 1\<rparr>)"
    by (intro cached_getattr_hit) simp_all
next
  show "suffix (cache_list g)
      (cache_list (snd (snd (cached_getattr k' u' pathp statp rm' qf' g))))"
    by (rule cached_getattr_suffix)
qed

theorem cache_scan_first_fresh_match_witness:
  "path (ex_entry ''/tmp/nfs/a'' 2 100) = ''/tmp/nfs/a''
   \<and> (1000 :: ulong) \<le> 1200 - timestamp (ex_entry ''/tmp/nfs/a'' 2 100)
   \<and> cache_scan ''/tmp/nfs/a'' 1200 1000
        [ex_entry ''/tmp/nfs/a'' 2 100, ex_entry ''/tmp/nfs/b'' 1 900,
         ex_entry ''/tmp/nfs/a'' 3 300, ex_entry ''/tmp/nfs/a'' 4 400]
       = Some (ex_entry ''/tmp/nfs/a'' 3 300)
   \<and> cached_getattr (ex_kernel 1200 (- 5, 0) False) () (Some (ex_dentry 1)) (Some 0) 0 0
        (ex_globals [ex_entry ''/tmp/nfs/a'' 2 100, ex_entry ''/tmp/nfs/b'' 1 900,
           ex_entry ''/tmp/nfs/a'' 3 300, ex_entry ''/tmp/nfs/a'' 4 400])
       = (0, Some 3,
          \<lparr>cache_list = [ex_entry ''/tmp/nfs/a'' 2 100, ex_entry ''/tmp/nfs/b'' 1 900,
             ex_entry ''/tmp/nfs/a'' 3 300, ex_entry ''/tmp/nfs/a'' 4 400],
           cache_hits = 1, cache_misses = 0, getattr_calls = 0\<rparr>)"
proof -
  let ?e = "ex_entry ''/tmp/nfs/a'' 2 100"
  let ?es = "[ex_entry ''/tmp/nfs/b'' 1 900, ex_entry ''/tmp/nfs/a'' 3 300,
              ex_entry ''/tmp/nfs/a'' 4 400]"
  let ?k = "ex_kernel 1200 (- 5, 0) False"
  note claim = cache_scan_first_fresh_match [of "''/tmp/nfs/a''" 1200 1000 ?es ?e]
  have stale: "path ?e = ''/tmp/nfs/a'' \<and> (1000 :: ulong) \<le> 1200 - timestamp ?e"
    by (simp add: ex_entry_def)
  have "cache_scan ''/tmp/nfs/a'' 1200 1000 (?e # ?es)
      = cache_scan ''/tmp/nfs/a'' 1200 1000 ?es"
    by (rule mp [OF conjunct1 [OF conjunct2 [OF claim]] stale])
  also from claim have "\<dots> = find (\<lambda>e. path e = ''/tmp/nfs/a'' \<and> 1200 - timestamp e < 1000) ?es"
    by (rule conjunct1)
  also have "\<dots> = Some (ex_entry ''/tmp/nfs/a'' 3 300)"
    by (simp add: ex_entry_def)
  finally have scan: "cache_scan ''/tmp/nfs/a'' 1200 1000 (?e # ?es)
      = Some (ex_entry ''/tmp/nfs/a'' 3 300)" .
  have found: "dentry (ex_dentry 1) = Some 1
      \<and> d_path ?k (ex_dentry 1) MAX_PATH_LEN = Inr ''/tmp/nfs/a''
      \<and> should_cache_path ''/tmp/nfs/a''
      \<and> find (\<lambda>e. path e = ''/tmp/nfs/a''
                  \<and> jiffies ?k - timestamp e < msecs_to_jiffies ?k CACHE_TIMEOUT_MS)
            (cache_list (ex_globals (?e # ?es))) = Some (ex_entry ''/tmp/nfs/a'' 3 300)"
    by (simp add: ex_defs)
  have "cached_getattr ?k () (Some (ex_dentry 1)) (Some 0) 0 0 (ex_globals (?e # ?es))
      = (0, Some (stat (ex_entry ''/tmp/nfs/a'' 3 300)),
         (ex_globals (?e # ?es))\<lparr>cache_hits := cache_hits (ex_globals (?e # ?es)) + 1\<rparr>)"
    by (rule mp [OF conjunct1 [OF conjunct2 [OF conjunct2
          [OF cache_scan_first_fresh_match]]] found])
  then show ?thesis
    using stale scan by (simp add: ex_globals_def ex_entry_def)
qed

text \<open>
  C7. A call with a NULL path, a path with a NULL dentry, or a NULL stat buffer returns
  \<open>-EINVAL\<close> at once: the globals (store, both counters, and the count of calls of the
  original getattr) and the buffer are as before.
\<close>

theorem cached_getattr_null_argument_einval:
  assumes "pathp = None \<or> (\<exists>p. pathp = Some p \<and> dentry p = None) \<or> statp = None"
  shows "cached_getattr k user_ns pathp statp request_mask query_flags g = (- EINVAL, statp, g)"
proof -
  consider "pathp = None" | p where "pathp = Some p" "dentry p = None"
    | p d where "pathp = Some p" "dentry p = Some d" "statp = None"
    using assms by (cases pathp; cases statp) auto
  then show ?thesis
    by cases (simp_all add: cached_getattr_def Let_def)
qed

theorem cached_getattr_null_argument_einval_witness:
  "cached_getattr (ex_kernel 7 (0, 42) True) () None (Some 5) 0 0
     (ex_globals [ex_entry ''/tmp/nfs/a'' 1 0]) =
     (- 22, Some 5, ex_globals [ex_entry ''/tmp/nfs/a'' 1 0])
   \<and> cached_getattr (ex_kernel 7 (0, 42) True) () (Some (ex_dentry 1)) None 0 0
     (ex_globals [ex_entry ''/tmp/nfs/a'' 1 0]) =
     (- 22, None, ex_globals [ex_entry ''/tmp/nfs/a'' 1 0])"
  using cached_getattr_null_argument_einval
      [of None "Some 5" "ex_kernel 7 (0, 42) True" "()" 0 0
          "ex_globals [ex_entry ''/tmp/nfs/a'' 1 0]"]
    cached_getattr_null_argument_einval
      [of "Some (ex_dentry 1)" None "ex_kernel 7 (0, 42) True" "()" 0 0
          "ex_globals [ex_entry ''/tmp/nfs/a'' 1 0]"]
  by (simp add: EINVAL_def)

text \<open>
  C6. For a path that \<open>should_cache_path\<close> rejects, the call is one call of the original
  getattr: its return code and the buffer it filled are returned, and the store and both
  counters are as before.
\<close>

theorem cached_getattr_ineligible_delegates:
  assumes "dentry p = Some d"
    and "d_path k p MAX_PATH_LEN = Inr fullpath"
    and "\<not> should_cache_path fullpath"
    and "original_getattr k user_ns p st request_mask query_flags = (ret, st')"
  shows "cached_getattr k user_ns (Some p) (Some st) request_mask query_flags g =
      (ret, Some st', g\<lparr>getattr_calls := Suc (getattr_calls g)\<rparr>)
    \<and> cache_list (snd (snd (cached_getattr k user_ns (Some p) (Some st) request_mask query_flags g)))
        = cache_list g
    \<and> cache_hits (snd (snd (cached_getattr k user_ns (Some p) (Some st) request_mask query_flags g)))
        = cache_hits g
    \<and> cache_misses (snd (snd (cached_getattr k user_ns (Some p) (Some st) request_mask query_flags g)))
        = cache_misses g"
proof -
  have "cached_getattr k user_ns (Some p) (Some st) request_mask query_flags g =
      (ret, Some st', g\<lparr>getattr_calls := Suc (getattr_calls g)\<rparr>)"
    using assms cached_getattr_delegate [of p d k user_ns st request_mask query_flags g]
    by simp
  then show ?thesis
    by simp
qed

theorem cached_getattr_ineligible_delegates_witness:
  "\<not> should_cache_path ''/etc/passwd''
   \<and> cached_getattr (ex_kernel 7 (- 5, 42) True) () (Some (ex_dentry 3)) (Some 5) 0 0
     (ex_globals [ex_entry ''/tmp/nfs/a'' 1 0]) =
     (- 5, Some 42, (ex_globals [ex_entry ''/tmp/nfs/a'' 1 0])\<lparr>getattr_calls := 1\<rparr>)"
proof -
  have inel: "\<not> should_cache_path ''/etc/passwd''"
    by (simp add: should_cache_path_def cached_paths_def strlen_def)
  have "dentry (ex_dentry 3) = Some 3"
    and "d_path (ex_kernel 7 (- 5, 42) True) (ex_dentry 3) MAX_PATH_LEN = Inr ''/etc/passwd''"
    and "original_getattr (ex_kernel 7 (- 5, 42) True) () (ex_dentry 3) 5 0 0 = (- 5, 42)"
    by (simp_all add: ex_defs)
  from cached_getattr_ineligible_delegates [OF this(1,2) inel this(3), of "ex_globals [ex_entry ''/tmp/nfs/a'' 1 0]"]
  show ?thesis
    using inel by (simp add: ex_globals_def)
qed

text \<open>
  C10. When \<open>d_path\<close> fails, so that \<open>get_full_path\<close> gives NULL, the call is one
  call of the original getattr, whatever the path is: its return code and the buffer it
  filled are returned, and the store and both counters are as before.
\<close>

theorem cached_getattr_unresolved_path_delegates:
  assumes "dentry p = Some d"
    and "d_path k p MAX_PATH_LEN = Inl err"
    and "original_getattr k user_ns p st request_mask query_flags = (ret, st')"
  shows "get_full_path k p MAX_PATH_LEN = None
    \<and> cached_getattr k user_ns (Some p) (Some st) request_mask query_flags g =
      (ret, Some st', g\<lparr>getattr_calls := Suc (getattr_calls g)\<rparr>)
    \<and> cache_list (snd (snd (cached_getattr k user_ns (Some p) (Some st) request_mask query_flags g)))
        = cache_list g
    \<and> cache_hits (snd (snd (cached_getattr k user_ns (Some p) (Some st) request_mask query_flags g)))
        = cache_hits g
    \<and> cache_misses (snd (snd (cached_getattr k user_ns (Some p) (Some st) request_mask query_flags g)))
        = cache_misses g"
proof -
  have "cached_getattr k user_ns (Some p) (Some st) request_mask query_flags g =
      (ret, Some st', g\<lparr>getattr_calls := Suc (getattr_calls g)\<rparr>)"
    using assms cached_getattr_delegate [of p d k user_ns st request_mask query_flags g]
    by simp
  then show ?thesis
    using assms(2) by (simp add: get_full_path_def)
qed

theorem cached_getattr_unresolved_path_delegates_witness:
  "d_path (ex_kernel 7 (0, 42) True) (ex_dentry 9) MAX_PATH_LEN = Inl (- 36)
   \<and> cached_getattr (ex_kernel 7 (0, 42) True) () (Some (ex_dentry 9)) (Some 5) 0 0
     (ex_globals [ex_entry ''/tmp/nfs/a'' 1 0]) =
     (0, Some 42, (ex_globals [ex_entry ''/tmp/nfs/a'' 1 0])\<lparr>getattr_calls := 1\<rparr>)"
proof -
  have "dentry (ex_dentry 9) = Some 9"
    and fails: "d_path (ex_kernel 7 (0, 42) True) (ex_dentry 9) MAX_PATH_LEN = Inl (- 36)"
    and "original_getattr (ex_kernel 7 (0, 42) True) () (ex_dentry 9) 5 0 0 = (0, 42)"
    by (simp_all add: ex_defs)
  from cached_getattr_unresolved_path_delegates
    [OF this, of "ex_globals [ex_entry ''/tmp/nfs/a'' 1 0]"]
  show ?thesis
    using fails by (simp add: ex_globals_def)
qed

text \<open>
  C8. When the original getattr has succeeded on a miss and \<open>kmalloc\<close> then returns
  NULL, the call still returns 0 with the attributes just fetched; nothing is added to
  the store.
\<close>

theorem cached_getattr_kmalloc_failure_not_surfaced:
  assumes "dentry p = Some d"
    and "d_path k p MAX_PATH_LEN = Inr fullpath"
    and "should_cache_path fullpath"
    and "cache_scan fullpath (jiffies k) (msecs_to_jiffies k CACHE_TIMEOUT_MS) (cache_list g) = None"
    and "original_getattr k user_ns p st request_mask query_flags = (0, st')"
    and "\<not> kmalloc k"
  shows "cached_getattr k user_ns (Some p) (Some st) request_mask query_flags g =
      (0, Some st',
       g\<lparr>cache_misses := cache_misses g + 1, getattr_calls := Suc (getattr_calls g)\<rparr>)
    \<and> cache_list (snd (snd (cached_getattr k user_ns (Some p) (Some st) request_mask query_flags g)))
        = cache_list g"
  using assms(6) cached_getattr_miss [OF assms(1-5)]
  by simp

theorem cached_getattr_kmalloc_failure_not_surfaced_witness:
  "\<not> kmalloc (ex_kernel 7 (0, 42) False)
   \<and> cached_getattr (ex_kernel 7 (0, 42) False) () (Some (ex_dentry 2)) (Some 5) 0 0
     (ex_globals [ex_entry ''/tmp/nfs/a'' 1 0]) =
     (0, Some 42,
      \<lparr>cache_list = [ex_entry ''/tmp/nfs/a'' 1 0], cache_hits = 0, cache_misses = 1,
       getattr_calls = 1\<rparr>)"
proof -
  have "dentry (ex_dentry 2) = Some 2"
    and "d_path (ex_kernel 7 (0, 42) False) (ex_dentry 2) MAX_PATH_LEN = Inr ''/tmp/nfsother''"
    and "should_cache_path ''/tmp/nfsother''"
    and "cache_scan ''/tmp/nfsother'' (jiffies (ex_kernel 7 (0, 42) False))
          (msecs_to_jiffies (ex_kernel 7 (0, 42) False) CACHE_TIMEOUT_MS)
          (cache_list (ex_globals [ex_entry ''/tmp/nfs/a'' 1 0])) = None"
    and "original_getattr (ex_kernel 7 (0, 42) False) () (ex_dentry 2) 5 0 0 = (0, 42)"
    and nomem: "\<not> kmalloc (ex_kernel 7 (0, 42) False)"
    by (simp_all add: ex_defs)
  from cached_getattr_kmalloc_failure_not_surfaced [OF this]
  show ?thesis
    using nomem by (simp add: ex_globals_def)
qed

text \<open>
  C1. Let a call at the time \<open>T = jiffies k0\<close> have put an entry for its path into the
  store; then the path is eligible, the original getattr returned 0, and the attributes
  \<open>st\<close> it fetched are the ones cached. The path fits the buffer that \<open>d_path\<close>
  wrote it to. After any history of calls and sweeps inside the window of that entry
  (each less than the timeout after \<open>T\<close>), a call for the same path at a time less than
  the timeout after \<open>T\<close> returns 0 and the attributes \<open>st\<close>, does not call the
  original getattr, and adds one to \<open>cache_hits\<close> and changes nothing else. Times are
  \<open>unsigned long\<close> values and their differences wrap, as in the C.
\<close>

theorem cached_getattr_hit_within_ttl:
  assumes fetch: "cached_getattr k0 u0 (Some p0) statp0 rm0 qf0 g0 = (ret0, Some st, g1)"
    and populated: "cache_list g1 \<noteq> cache_list g0"
    and resolved: "d_path k0 p0 MAX_PATH_LEN = Inr fullpath"
    and fits: "length fullpath < MAX_PATH_LEN"
    and between: "\<forall>ev\<in>set evs. in_window (jiffies k0) ttl ev"
    and valid: "dentry p = Some d"
    and same_path: "d_path k p MAX_PATH_LEN = Inr fullpath"
    and in_ttl: "jiffies k - jiffies k0 < ttl"
    and ttl: "msecs_to_jiffies k CACHE_TIMEOUT_MS = ttl"
  shows "should_cache_path fullpath \<and> ret0 = 0
    \<and> cached_getattr k u (Some p) (Some st1) rm qf (run evs g1) =
        (0, Some st, (run evs g1)\<lparr>cache_hits := cache_hits (run evs g1) + 1\<rparr>)
    \<and> getattr_calls (snd (snd (cached_getattr k u (Some p) (Some st1) rm qf (run evs g1))))
        = getattr_calls (run evs g1)"
proof -
  let ?e0 = "\<lparr>path = fullpath, stat = st, timestamp = jiffies k0\<rparr>"
  note ins = cached_getattr_inserted [OF fetch populated resolved]
  from ins(3) have first:
    "cache_list g1 = \<lparr>path = take (MAX_PATH_LEN - 1) fullpath, stat = st,
        timestamp = jiffies k0\<rparr> # cache_list g0"
    by simp
  from fits have "take (MAX_PATH_LEN - 1) fullpath = fullpath"
    by simp
  with first have "find (\<lambda>e. path e = fullpath) (cache_list g1) = Some ?e0"
    by simp
  moreover from between have "\<forall>ev\<in>set evs. in_window (timestamp ?e0) ttl ev"
    by simp
  ultimately have "find (\<lambda>e. path e = fullpath) (cache_list (run evs g1)) = Some ?e0"
    by (rule run_first_for_path)
  moreover from in_ttl ttl
  have "jiffies k - timestamp ?e0 < msecs_to_jiffies k CACHE_TIMEOUT_MS"
    by simp
  ultimately have
    "cache_scan fullpath (jiffies k) (msecs_to_jiffies k CACHE_TIMEOUT_MS)
       (cache_list (run evs g1)) = Some ?e0"
    by (rule cache_scan_first_for_path)
  with valid same_path ins(1)
  have "cached_getattr k u (Some p) (Some st1) rm qf (run evs g1) =
      (0, Some (stat ?e0), (run evs g1)\<lparr>cache_hits := cache_hits (run evs g1) + 1\<rparr>)"
    by (intro cached_getattr_hit) simp_all
  with ins(1,2) show ?thesis
    by simp
qed

theorem cached_getattr_hit_within_ttl_witness:
  "cached_getattr (ex_kernel 999 (- 5, 77) False) () (Some (ex_dentry 1)) (Some 0) 0 0
     \<lparr>cache_list = [ex_entry ''/tmp/nfsother'' 50 100, ex_entry ''/tmp/nfs/a'' 42 0],
        cache_hits = 1, cache_misses = 2, getattr_calls = 2\<rparr>
   = (0, Some 42,
      \<lparr>cache_list = [ex_entry ''/tmp/nfsother'' 50 100, ex_entry ''/tmp/nfs/a'' 42 0],
        cache_hits = 2, cache_misses = 2, getattr_calls = 2\<rparr>)"
proof -
  let ?evs = "[Getattr (ex_kernel 100 (0, 50) True) () (Some (ex_dentry 2)) (Some 0) 0 0,
               Cleanup (ex_kernel 400 (0, 0) True),
               Getattr (ex_kernel 450 (0, 51) True) () (Some (ex_dentry 1)) (Some 0) 0 0]"
  let ?g1 = "\<lparr>cache_list = [ex_entry ''/tmp/nfs/a'' 42 0], cache_hits = 0,
               cache_misses = 1, getattr_calls = 1 :: nat\<rparr>"
  have populated: "cache_list ?g1 \<noteq> cache_list (ex_globals [])"
    by (simp add: ex_globals_def)
  have resolved: "d_path (ex_kernel 0 (0, 42) True) (ex_dentry 1) MAX_PATH_LEN = Inr ''/tmp/nfs/a''"
    by (simp add: ex_defs)
  have fits: "length ''/tmp/nfs/a'' < MAX_PATH_LEN"
    by (simp add: MAX_PATH_LEN_def)
  have between: "\<forall>ev\<in>set ?evs. in_window (jiffies (ex_kernel 0 (0, 42) True)) 1000 ev"
    by (simp add: ex_defs)
  have valid: "dentry (ex_dentry 1) = Some 1"
    by (simp add: ex_dentry_def)
  have same_path:
    "d_path (ex_kernel 999 (- 5, 77) False) (ex_dentry 1) MAX_PATH_LEN = Inr ''/tmp/nfs/a''"
    by (simp add: ex_defs)
  have in_ttl: "jiffies (ex_kernel 999 (- 5, 77) False) - jiffies (ex_kernel 0 (0, 42) True) < 1000"
    by (simp add: ex_kernel_def)
  have ttl: "msecs_to_jiffies (ex_kernel 999 (- 5, 77) False) CACHE_TIMEOUT_MS = 1000"
    by (simp add: ex_defs)
  from cached_getattr_hit_within_ttl
    [OF ex_first_fetch populated resolved fits between valid same_path in_ttl ttl,
     of "()" 0 0 0]
  show ?thesis
    unfolding ex_history by simp
qed

text \<open>
  C5, as amended. On a miss for an eligible path the original getattr is called exactly
  once. When it returns 0, the call adds one to \<open>cache_misses\<close> and returns 0 with the
  fetched attributes, and, when \<open>kmalloc\<close> gives memory, puts an entry with these
  attributes in front of the store. When it returns an error, the call returns that
  same error and the store is as before.
\<close>

theorem cached_getattr_miss_fetches_once:
  assumes "dentry p = Some d"
    and "d_path k p MAX_PATH_LEN = Inr fullpath"
    and "should_cache_path fullpath"
    and "cache_scan fullpath (jiffies k) (msecs_to_jiffies k CACHE_TIMEOUT_MS) (cache_list g) = None"
    and "original_getattr k user_ns p st request_mask query_flags = (ret, st')"
  shows "getattr_calls (snd (snd (cached_getattr k user_ns (Some p) (Some st) request_mask query_flags g)))
        = Suc (getattr_calls g)
    \<and> (ret = 0 \<and> kmalloc k \<longrightarrow>
        cached_getattr k user_ns (Some p) (Some st) request_mask query_flags g =
          (0, Some st',
           g\<lparr>cache_misses := cache_misses g + 1, getattr_calls := Suc (getattr_calls g),
              cache_list := \<lparr>path = take (MAX_PATH_LEN - 1) fullpath, stat = st',
                              timestamp = jiffies k\<rparr> # cache_list g\<rparr>))
    \<and> (ret = 0 \<and> \<not> kmalloc k \<longrightarrow>
        cached_getattr k user_ns (Some p) (Some st) request_mask query_flags g =
          (0, Some st',
           g\<lparr>cache_misses := cache_misses g + 1, getattr_calls := Suc (getattr_calls g)\<rparr>))
    \<and> (ret \<noteq> 0 \<longrightarrow>
        fst (cached_getattr k user_ns (Some p) (Some st) request_mask query_flags g) = ret
        \<and> cache_list (snd (snd (cached_getattr k user_ns (Some p) (Some st) request_mask query_flags g)))
            = cache_list g)"
  unfolding cached_getattr_miss [OF assms]
  by simp

theorem cached_getattr_miss_fetches_once_witness:
  "cached_getattr (ex_kernel 20 (0, 42) True) () (Some (ex_dentry 2)) (Some 5) 0 0
     (ex_globals [ex_entry ''/tmp/nfs/a'' 1 0]) =
     (0, Some 42,
      \<lparr>cache_list = [ex_entry ''/tmp/nfsother'' 42 20, ex_entry ''/tmp/nfs/a'' 1 0],
       cache_hits = 0, cache_misses = 1, getattr_calls = 1\<rparr>)
   \<and> fst (cached_getattr (ex_kernel 20 (- 5, 9) True) () (Some (ex_dentry 2)) (Some 5) 0 0
     (ex_globals [ex_entry ''/tmp/nfs/a'' 1 0])) = - 5
   \<and> cache_list (snd (snd (cached_getattr (ex_kernel 20 (- 5, 9) True) () (Some (ex_dentry 2))
     (Some 5) 0 0 (ex_globals [ex_entry ''/tmp/nfs/a'' 1 0])))) = [ex_entry ''/tmp/nfs/a'' 1 0]"
proof -
  have valid: "dentry (ex_dentry 2) = Some 2"
    and eligible: "should_cache_path ''/tmp/nfsother''"
    by (simp_all add: ex_defs)
  have resolved: "d_path (ex_kernel 20 r True) (ex_dentry 2) MAX_PATH_LEN = Inr ''/tmp/nfsother''"
    and missed: "cache_scan ''/tmp/nfsother'' (jiffies (ex_kernel 20 r True))
       (msecs_to_jiffies (ex_kernel 20 r True) CACHE_TIMEOUT_MS)
       (cache_list (ex_globals [ex_entry ''/tmp/nfs/a'' 1 0])) = None"
    and fetched: "original_getattr (ex_kernel 20 r True) () (ex_dentry 2) 5 0 0 = r" for r
    by (simp_all add: ex_defs)
  from cached_getattr_miss_fetches_once
      [OF valid resolved [of "(0, 42)"] eligible missed [of "(0, 42)"] fetched [of "(0, 42)"]]
    cached_getattr_miss_fetches_once
      [OF valid resolved [of "(- 5, 9)"] eligible missed [of "(- 5, 9)"] fetched [of "(- 5, 9)"]]
  show ?thesis
    by (simp add: ex_defs)
qed

text \<open>
  C5 as it was stated fails when \<open>kmalloc\<close> returns NULL: the path is eligible, the
  store is empty, the original getattr returns 0 and the attributes 42, and the store is
  still empty after the call.
\<close>

theorem cached_getattr_miss_without_insert_counterexample:
  "should_cache_path ''/tmp/nfs/a''
   \<and> d_path (ex_kernel 0 (0, 42) False) (ex_dentry 1) MAX_PATH_LEN = Inr ''/tmp/nfs/a''
   \<and> original_getattr (ex_kernel 0 (0, 42) False) () (ex_dentry 1) 0 0 0 = (0, 42)
   \<and> cached_getattr (ex_kernel 0 (0, 42) False) () (Some (ex_dentry 1)) (Some 0) 0 0
        \<lparr>cache_list = [], cache_hits = 0, cache_misses = 0, getattr_calls = 0\<rparr>
      = (0, Some 42, \<lparr>cache_list = [], cache_hits = 0, cache_misses = 1, getattr_calls = 1\<rparr>)"
  by (simp add: cached_getattr_def ex_defs)

text \<open>
  C9. A call that changes the store has put one new entry in front of it and left every
  entry that was there in place, whatever their paths. So when two calls for the same
  path both insert, the store afterwards begins with two entries for that path, the
  later one first.
\<close>

theorem cached_getattr_insert_keeps_existing_entries:
  assumes "cached_getattr k1 u1 (Some p1) statp1 rm1 qf1 g0 = (ret1, so1, g1)"
    and "cache_list g1 \<noteq> cache_list g0"
    and "cached_getattr k2 u2 (Some p2) statp2 rm2 qf2 g1 = (ret2, so2, g2)"
    and "cache_list g2 \<noteq> cache_list g1"
    and "d_path k2 p2 MAX_PATH_LEN = d_path k1 p1 MAX_PATH_LEN"
  shows "\<exists>e1 e2. cache_list g1 = e1 # cache_list g0
    \<and> cache_list g2 = e2 # e1 # cache_list g0
    \<and> path e2 = path e1
    \<and> timestamp e1 = jiffies k1 \<and> timestamp e2 = jiffies k2"
proof -
  from assms(1,2) obtain fullpath where fp: "d_path k1 p1 MAX_PATH_LEN = Inr fullpath"
    by (elim cached_getattr_grows) auto
  from cached_getattr_inserted(3) [OF assms(1,2) fp]
    cached_getattr_inserted(3) [OF assms(3,4) assms(5) [unfolded fp]]
  show ?thesis
    by auto
qed

theorem cached_getattr_insert_keeps_existing_entries_witness:
  "\<exists>e1 e2.
      cache_list (snd (snd (cached_getattr (ex_kernel 0 (0, 42) True) ()
        (Some (ex_dentry 1)) (Some 0) 0 0 (ex_globals [])))) = e1 # []
    \<and> cache_list (snd (snd (cached_getattr (ex_kernel 1000 (0, 43) True) ()
        (Some (ex_dentry 1)) (Some 0) 0 0
        (snd (snd (cached_getattr (ex_kernel 0 (0, 42) True) ()
          (Some (ex_dentry 1)) (Some 0) 0 0 (ex_globals []))))))) = e2 # e1 # []
    \<and> path e2 = path e1
    \<and> timestamp e1 = 0 \<and> timestamp e2 = 1000"
proof -
  let ?g1 = "\<lparr>cache_list = [ex_entry ''/tmp/nfs/a'' 42 0], cache_hits = 0,
               cache_misses = 1, getattr_calls = 1 :: nat\<rparr>"
  let ?g2 = "\<lparr>cache_list = [ex_entry ''/tmp/nfs/a'' 43 1000, ex_entry ''/tmp/nfs/a'' 42 0],
               cache_hits = 0, cache_misses = 2, getattr_calls = 2 :: nat\<rparr>"
  have grows1: "cache_list ?g1 \<noteq> cache_list (ex_globals [])"
    and grows2: "cache_list ?g2 \<noteq> cache_list ?g1"
    and same: "d_path (ex_kernel 1000 (0, 43) True) (ex_dentry 1) MAX_PATH_LEN
      = d_path (ex_kernel 0 (0, 42) True) (ex_dentry 1) MAX_PATH_LEN"
    by (simp_all add: ex_globals_def ex_kernel_def)
  from cached_getattr_insert_keeps_existing_entries
    [OF ex_first_fetch grows1 ex_second_fetch grows2 same]
  show ?thesis
    unfolding ex_first_fetch snd_conv ex_second_fetch
    by (simp add: ex_kernel_def ex_globals_def)
qed


end
